theory Spec2Isabelle
  imports Complex_Main
begin

section \<open>Conventions\<close>

text \<open>
  The three utilities of the fact checker are embedded as HOL functions: the TTL cache
  of \<^verbatim>\<open>src/utils/cache.ts\<close>, the retry wrapper of \<^verbatim>\<open>src/utils/retry.ts\<close> and the
  rate limiter of \<^verbatim>\<open>src/app/api/fact-check/route.ts\<close>.

  \<^item> A TypeScript \<^verbatim>\<open>number\<close> is a \<^typ>\<open>real\<close>; NaN and the infinities of IEEE
    doubles are outside the model. Comparisons and \<^verbatim>\<open>Math.min\<close> are exact on doubles, and
    so are the differences the code forms of whole millisecond timestamps and window
    lengths. The loop counter \<^verbatim>\<open>attempt\<close> is a natural number, and
    \<^verbatim>\<open>attempt === maxRetries - 1\<close> is decided as in the reals, which is how the doubles
    decide it for \<^verbatim>\<open>maxRetries\<close> below \<open>2 ^ 53\<close>.
  \<^item> A product is not exact: \<^verbatim>\<open>a * b\<close> is the real product rounded to a double
    (\<^verbatim>\<open>3 * 0.1\<close> is \<^verbatim>\<open>0.30000000000000004\<close>). The functions that multiply take the
    multiplication of the runtime as their first argument \<open>mul\<close>, and nothing is assumed
    of it. Where the factors of an example have an exact product in doubles, as
    \<open>1000 * 2\<close> or \<open>100 * (1 / 2)\<close>, the example is run with the product \<open>(*)\<close> of
    the reals.
  \<^item> \<^verbatim>\<open>Date.now()\<close> is an argument \<open>now\<close> of every function that reads the clock.
  \<^item> A \<^verbatim>\<open>Map<string, V>\<close> is a map \<open>string \<rightharpoonup> V\<close>; a mutating method returns the
    new state next to its result.
  \<^item> An optional field or parameter is an \<open>option\<close>; \<open>None\<close> is \<^verbatim>\<open>undefined\<close>.
\<close>

section \<open>The TTL cache (\<^verbatim>\<open>src/utils/cache.ts\<close>)\<close>

text \<open>
  The type \<^verbatim>\<open>CacheEntry<T>\<close>; its field \<^verbatim>\<open>value\<close> is \<open>val\<close> here, as \<open>value\<close> is
  a keyword of the theory language.
\<close>

record 'v CacheEntry =
  val :: 'v
  timestamp :: real

record 'v Cache =
  cache :: "string \<rightharpoonup> 'v CacheEntry"
  ttl :: real

text \<open>
  \<^verbatim>\<open>constructor(ttlMinutes = 60)\<close>: the TTL is kept in milliseconds,
  \<^verbatim>\<open>ttlMinutes * 60 * 1000\<close>, two products of the runtime.
\<close>

definition Cache_new :: "(real \<Rightarrow> real \<Rightarrow> real) \<Rightarrow> real option \<Rightarrow> 'v Cache" where
  "Cache_new mul ttlMinutes_opt =
     (let ttlMinutes = (case ttlMinutes_opt of None \<Rightarrow> 60 | Some m \<Rightarrow> m)
      in \<lparr>cache = Map.empty, ttl = mul (mul ttlMinutes 60) 1000\<rparr>)"

text \<open>\<^verbatim>\<open>set(key, value)\<close>: the entry is stamped with \<^verbatim>\<open>Date.now()\<close>.\<close>

definition Cache_set :: "'v Cache \<Rightarrow> string \<Rightarrow> 'v \<Rightarrow> real \<Rightarrow> 'v Cache" where
  "Cache_set c key v now = c\<lparr>cache := (cache c)(key \<mapsto> \<lparr>val = v, timestamp = now\<rparr>)\<rparr>"

text \<open>
  \<^verbatim>\<open>get(key)\<close>: \<open>None\<close> is the \<^verbatim>\<open>null\<close> the method returns. An entry is an object, hence
  truthy whatever its value, so \<^verbatim>\<open>!entry\<close> holds exactly for a missing key. An expired
  entry is deleted before \<^verbatim>\<open>null\<close> is returned.
\<close>

definition Cache_get :: "'v Cache \<Rightarrow> string \<Rightarrow> real \<Rightarrow> 'v option \<times> 'v Cache" where
  "Cache_get c key now =
     (case cache c key of
        None \<Rightarrow> (None, c)
      | Some entry \<Rightarrow>
          if now - timestamp entry > ttl c
          then (None, c\<lparr>cache := (cache c)(key := None)\<rparr>)
          else (Some (val entry), c))"

text \<open>\<^verbatim>\<open>clear()\<close>.\<close>

definition Cache_clear :: "'v Cache \<Rightarrow> 'v Cache" where
  "Cache_clear c = c\<lparr>cache := Map.empty\<rparr>"

text \<open>
  A history of method calls on one cache, each with the clock reading at the call. Results
  of intermediate reads are dropped: only their effect on the cache matters for what a
  later read returns.
\<close>

datatype 'v Cache_call = Call_set string 'v | Call_get string | Call_clear

fun Cache_step :: "'v Cache \<Rightarrow> real \<times> 'v Cache_call \<Rightarrow> 'v Cache" where
  "Cache_step c (now, Call_set key v) = Cache_set c key v now"
| "Cache_step c (now, Call_get key) = snd (Cache_get c key now)"
| "Cache_step c (now, Call_clear) = Cache_clear c"

definition Cache_run :: "'v Cache \<Rightarrow> (real \<times> 'v Cache_call) list \<Rightarrow> 'v Cache" where
  "Cache_run c calls = foldl Cache_step c calls"

text \<open>A call that neither stores under \<open>k\<close> nor clears the cache.\<close>

fun keeps_key :: "string \<Rightarrow> 'v Cache_call \<Rightarrow> bool" where
  "keeps_key k (Call_set key v) = (key \<noteq> k)"
| "keeps_key k (Call_get key) = True"
| "keeps_key k Call_clear = False"

text \<open>A call that stores nothing.\<close>

fun stores_nothing :: "'v Cache_call \<Rightarrow> bool" where
  "stores_nothing (Call_set key v) = False"
| "stores_nothing (Call_get key) = True"
| "stores_nothing Call_clear = True"

section \<open>The retry wrapper (\<^verbatim>\<open>src/utils/retry.ts\<close>)\<close>

text \<open>The interface \<^verbatim>\<open>RetryOptions\<close>: every field may be left out.\<close>

record RetryOptions =
  maxRetries :: "real option"
  initialDelay :: "real option"
  maxDelay :: "real option"
  backoffFactor :: "real option"

text \<open>
  The destructuring
  \<^verbatim>\<open>const { maxRetries = 3, initialDelay = 1000, maxDelay = 10000, backoffFactor = 2 } = options\<close>:
  a default stands in for a field that is \<^verbatim>\<open>undefined\<close>.
\<close>

definition maxRetries_of :: "RetryOptions \<Rightarrow> real" where
  "maxRetries_of options = (case maxRetries options of None \<Rightarrow> 3 | Some n \<Rightarrow> n)"

definition initialDelay_of :: "RetryOptions \<Rightarrow> real" where
  "initialDelay_of options = (case initialDelay options of None \<Rightarrow> 1000 | Some d \<Rightarrow> d)"

definition maxDelay_of :: "RetryOptions \<Rightarrow> real" where
  "maxDelay_of options = (case maxDelay options of None \<Rightarrow> 10000 | Some d \<Rightarrow> d)"

definition backoffFactor_of :: "RetryOptions \<Rightarrow> real" where
  "backoffFactor_of options = (case backoffFactor options of None \<Rightarrow> 2 | Some b \<Rightarrow> b)"

text \<open>
  The wrapped action \<^verbatim>\<open>fn: () => Promise<T>\<close> takes no argument, yet may answer
  differently each time it is called. It is a function on the state \<open>'s\<close> of whatever it
  depends on: \<open>fn s = (Inr v, s')\<close> when the promise resolves to \<open>v\<close>,
  \<open>fn s = (Inl e, s')\<close> when it rejects (or \<^verbatim>\<open>fn\<close> throws) with \<open>e\<close>. An action that
  never settles is outside the model.

  What the wrapper does besides returning is recorded as a trace: one \<open>Invoke\<close> for
  each call of the action, with its result, and one \<open>Wait\<close> for each
  \<^verbatim>\<open>setTimeout(resolve, delay)\<close> awaited, with the delay.
\<close>

datatype ('e, 'a) event = Invoke "'e + 'a" | Wait real

text \<open>
  The wrapper either returns the action's value or throws \<^verbatim>\<open>lastError\<close>, of type
  \<^verbatim>\<open>Error | null\<close>: \<open>Thrown None\<close> is \<^verbatim>\<open>throw null\<close>.
\<close>

datatype ('e, 'a) outcome = Returned 'a | Thrown "'e option"

record ('s, 'e, 'a) retry_run =
  outcome :: "('e, 'a) outcome"
  final :: 's
  trace :: "('e, 'a) event list"

definition after :: "('e, 'a) event list \<Rightarrow> ('s, 'e, 'a) retry_run \<Rightarrow> ('s, 'e, 'a) retry_run" where
  "after evs r = r\<lparr>trace := evs @ trace r\<rparr>"

text \<open>
  The \<^verbatim>\<open>for\<close> loop, entered with the current values of \<^verbatim>\<open>attempt\<close>, \<^verbatim>\<open>delay\<close> and
  \<^verbatim>\<open>lastError\<close>. Leaving the loop, by \<^verbatim>\<open>break\<close> or because the loop condition fails,
  reaches \<^verbatim>\<open>throw lastError\<close>.
\<close>

function withRetry_loop ::
  "(real \<Rightarrow> real \<Rightarrow> real) \<Rightarrow> ('s \<Rightarrow> ('e + 'a) \<times> 's) \<Rightarrow> RetryOptions \<Rightarrow> nat \<Rightarrow> real
     \<Rightarrow> 'e option \<Rightarrow> 's \<Rightarrow> ('s, 'e, 'a) retry_run" where
  "withRetry_loop mul fn options attempt delay lastError s =
     (if real attempt < maxRetries_of options then
        (case fn s of
           (Inr v, s') \<Rightarrow> \<lparr>outcome = Returned v, final = s', trace = [Invoke (Inr v)]\<rparr>
         | (Inl error, s') \<Rightarrow>
             if real attempt = maxRetries_of options - 1
             then \<lparr>outcome = Thrown (Some error), final = s', trace = [Invoke (Inl error)]\<rparr>
             else after [Invoke (Inl error), Wait delay]
                    (withRetry_loop mul fn options (attempt + 1)
                       (min (mul delay (backoffFactor_of options)) (maxDelay_of options))
                       (Some error) s'))
      else \<lparr>outcome = Thrown lastError, final = s, trace = []\<rparr>)"
  by pat_completeness auto
termination
proof (relation "measure (\<lambda>(mul, fn, options, attempt, delay, lastError, s).
                    nat \<lceil>maxRetries_of options\<rceil> - attempt)", goal_cases)
  case 1
  show ?case by simp
next
  case (2 mul fn options attempt delay lastError s)
  from \<open>real attempt < maxRetries_of options\<close>
  have "attempt < nat \<lceil>maxRetries_of options\<rceil>" by linarith
  then show ?case by simp
qed

text \<open>
  \<^verbatim>\<open>withRetry(fn, options = {})\<close>. A caller that leaves \<^verbatim>\<open>options\<close> out passes
  \<open>no_options\<close>, the object \<^verbatim>\<open>{}\<close>.
\<close>

definition no_options :: RetryOptions where
  "no_options = \<lparr>maxRetries = None, initialDelay = None, maxDelay = None, backoffFactor = None\<rparr>"

definition withRetry ::
  "(real \<Rightarrow> real \<Rightarrow> real) \<Rightarrow> ('s \<Rightarrow> ('e + 'a) \<times> 's) \<Rightarrow> RetryOptions \<Rightarrow> 's
     \<Rightarrow> ('s, 'e, 'a) retry_run" where
  "withRetry mul fn options s =
     withRetry_loop mul fn options 0 (initialDelay_of options) None s"

text \<open>What a run shows from outside: how often the action ran, and the delays waited.\<close>

fun is_Invoke :: "('e, 'a) event \<Rightarrow> bool" where
  "is_Invoke (Invoke r) = True"
| "is_Invoke (Wait d) = False"

definition invocations :: "('e, 'a) event list \<Rightarrow> nat" where
  "invocations evs = length (filter is_Invoke evs)"

fun delays :: "('e, 'a) event list \<Rightarrow> real list" where
  "delays [] = []"
| "delays (Invoke r # evs) = delays evs"
| "delays (Wait d # evs) = d # delays evs"

text \<open>
  The state of the action's world before its call number \<open>n\<close> (counted from 0), and the
  result of that call, when the action is called again and again from \<open>s\<close>.
\<close>

fun env_before :: "('s \<Rightarrow> ('e + 'a) \<times> 's) \<Rightarrow> 's \<Rightarrow> nat \<Rightarrow> 's" where
  "env_before fn s 0 = s"
| "env_before fn s (Suc n) = env_before fn (snd (fn s)) n"

definition result_of_call :: "('s \<Rightarrow> ('e + 'a) \<times> 's) \<Rightarrow> 's \<Rightarrow> nat \<Rightarrow> 'e + 'a" where
  "result_of_call fn s n = fst (fn (env_before fn s n))"

text \<open>
  The variable \<^verbatim>\<open>delay\<close> after \<open>n\<close> executions of
  \<^verbatim>\<open>delay = Math.min(delay * backoffFactor, maxDelay)\<close>.
\<close>

fun backoff :: "(real \<Rightarrow> real \<Rightarrow> real) \<Rightarrow> RetryOptions \<Rightarrow> real \<Rightarrow> nat \<Rightarrow> real" where
  "backoff mul options delay 0 = delay"
| "backoff mul options delay (Suc n) =
     backoff mul options (min (mul delay (backoffFactor_of options)) (maxDelay_of options)) n"

text \<open>
  The trace of \<open>k\<close> iterations of the loop in each of which the action fails and the
  loop goes on: a call, then a wait.
\<close>

fun failed_attempts ::
  "(real \<Rightarrow> real \<Rightarrow> real) \<Rightarrow> ('s \<Rightarrow> ('e + 'a) \<times> 's) \<Rightarrow> RetryOptions \<Rightarrow> real \<Rightarrow> 's \<Rightarrow> nat
     \<Rightarrow> ('e, 'a) event list" where
  "failed_attempts mul fn options delay s 0 = []"
| "failed_attempts mul fn options delay s (Suc k) =
     Invoke (fst (fn s)) # Wait delay #
     failed_attempts mul fn options
       (min (mul delay (backoffFactor_of options)) (maxDelay_of options)) (snd (fn s)) k"

text \<open>
  The sequence of delays in the words of the specification:
  \<open>initialDelay, min(initialDelay*backoffFactor, maxDelay),
   min(initialDelay*backoffFactor^2, maxDelay), \<dots>\<close>
\<close>

definition spec_delay :: "RetryOptions \<Rightarrow> nat \<Rightarrow> real" where
  "spec_delay options n =
     (if n = 0 then initialDelay_of options
      else min (initialDelay_of options * backoffFactor_of options ^ n) (maxDelay_of options))"

text \<open>
  Two actions for examples. The state counts the calls made so far. \<open>always_fails\<close>
  rejects with the number of the call; \<open>fails_until k\<close> rejects \<open>k\<close> times and
  resolves from then on.
\<close>

definition always_fails :: "nat \<Rightarrow> (nat + string) \<times> nat" where
  "always_fails s = (Inl s, Suc s)"

definition fails_until :: "nat \<Rightarrow> nat \<Rightarrow> (nat + string) \<times> nat" where
  "fails_until k s = (if s < k then Inl s else Inr ''done'', Suc s)"

text \<open>
  Option objects for examples: the one \<^verbatim>\<open>performFactCheck\<close> passes in
  \<^verbatim>\<open>route.ts\<close>, and four that a caller may write.
\<close>

definition route_options :: RetryOptions where
  "route_options = \<lparr>maxRetries = Some 3, initialDelay = Some 1000, maxDelay = Some 5000,
                     backoffFactor = Some 2\<rparr>"

definition zero_attempts :: RetryOptions where
  "zero_attempts = \<lparr>maxRetries = Some 0, initialDelay = None, maxDelay = None,
                     backoffFactor = None\<rparr>"

definition fractional_attempts :: RetryOptions where
  "fractional_attempts = \<lparr>maxRetries = Some (5 / 2), initialDelay = None, maxDelay = None,
                           backoffFactor = None\<rparr>"

definition halving :: RetryOptions where
  "halving = \<lparr>maxRetries = Some 4, initialDelay = Some 1000, maxDelay = Some 100,
               backoffFactor = Some (1 / 2)\<rparr>"

definition long_first_delay :: RetryOptions where
  "long_first_delay = \<lparr>maxRetries = None, initialDelay = Some 20000, maxDelay = None,
                        backoffFactor = None\<rparr>"

text \<open>
  An example in which a product rounds: \<^verbatim>\<open>{ initialDelay: 3, backoffFactor: 0.1 }\<close>.
  The literal \<^verbatim>\<open>0.1\<close> denotes the double \<open>3602879701896397 / 2 ^ 55\<close>. With an action
  that always fails the loop forms two products, and the runtime gives
  \<^verbatim>\<open>3 * 0.1 = 0.30000000000000004\<close>, the double \<open>1351079888211149 / 2 ^ 52\<close>, and
  \<^verbatim>\<open>0.30000000000000004 * 0.1 = 0.030000000000000006\<close>, the double
  \<open>4323455642275677 / 2 ^ 57\<close>. \<open>mul_doubles_example\<close> is the product of the runtime on
  these two pairs of factors; the run forms no other product.
\<close>

definition one_tenth :: real where
  "one_tenth = 3602879701896397 / 2 ^ 55"

definition by_one_tenth :: RetryOptions where
  "by_one_tenth = \<lparr>maxRetries = None, initialDelay = Some 3, maxDelay = None,
                    backoffFactor = Some one_tenth\<rparr>"

definition mul_doubles_example :: "real \<Rightarrow> real \<Rightarrow> real" where
  "mul_doubles_example a b =
     (if a = 3 \<and> b = one_tenth then 1351079888211149 / 2 ^ 52
      else if a = 1351079888211149 / 2 ^ 52 \<and> b = one_tenth then 4323455642275677 / 2 ^ 57
      else a * b)"

section \<open>The rate limiter (\<^verbatim>\<open>src/app/api/fact-check/route.ts\<close>)\<close>

definition RATE_LIMIT_WINDOW :: real where
  "RATE_LIMIT_WINDOW = 60 * 1000"

definition MAX_REQUESTS_PER_WINDOW :: nat where
  "MAX_REQUESTS_PER_WINDOW = 10"

text \<open>\<^verbatim>\<open>requestLog\<close>, a \<^verbatim>\<open>Map<string, number[]>\<close>.\<close>

type_synonym request_log = "string \<rightharpoonup> real list"

text \<open>
  \<^verbatim>\<open>requestLog.get(ip) || []\<close>: an array is truthy, also the empty one, so the default is
  taken exactly when the key is missing.
\<close>

definition requests_of :: "request_log \<Rightarrow> string \<Rightarrow> real list" where
  "requests_of requestLog ip = (case requestLog ip of None \<Rightarrow> [] | Some requests \<Rightarrow> requests)"

definition isRateLimited :: "request_log \<Rightarrow> string \<Rightarrow> real \<Rightarrow> bool \<times> request_log" where
  "isRateLimited requestLog ip now =
     (let requests = requests_of requestLog ip;
          recentRequests = filter (\<lambda>time. time > now - RATE_LIMIT_WINDOW) requests
      in (length recentRequests \<ge> MAX_REQUESTS_PER_WINDOW, requestLog(ip \<mapsto> recentRequests)))"

text \<open>
  The first steps of \<^verbatim>\<open>POST\<close> (lines 95 to 103). The identity is the
  \<^verbatim>\<open>x-forwarded-for\<close> header, or \<^verbatim>\<open>"unknown"\<close> when the header is missing or
  empty. A limited request is answered with status 429; any other request is logged, with
  a second reading \<open>now'\<close> of the clock. The rest of the handler does not touch the log.
\<close>

definition client_ip :: "string option \<Rightarrow> string" where
  "client_ip header = (case header of None \<Rightarrow> ''unknown'' | Some h \<Rightarrow> if h = [] then ''unknown'' else h)"

datatype admission = Too_many_requests | Logged

definition POST_rate_limiting ::
  "request_log \<Rightarrow> string option \<Rightarrow> real \<Rightarrow> real \<Rightarrow> admission \<times> request_log" where
  "POST_rate_limiting requestLog header now now' =
     (let ip = client_ip header;
          (limited, requestLog1) = isRateLimited requestLog ip now
      in if limited then (Too_many_requests, requestLog1)
         else (Logged, requestLog1(ip \<mapsto> requests_of requestLog1 ip @ [now'])))"

text \<open>A log for examples: ten requests of one identity, one second apart.\<close>

definition ten_requests :: request_log where
  "ten_requests = [''X'' \<mapsto> [1000, 2000, 3000, 4000, 5000, 6000, 7000, 8000, 9000, 10000]]"

section \<open>Properties of the cache\<close>

lemma Cache_run_Nil [simp]: "Cache_run c [] = c"
  by (simp add: Cache_run_def)

lemma Cache_run_Cons [simp]: "Cache_run c (x # xs) = Cache_run (Cache_step c x) xs"
  by (simp add: Cache_run_def)

lemma ttl_Cache_step [simp]: "ttl (Cache_step c x) = ttl c"
  by (cases x; cases "snd x")
     (auto simp: Cache_set_def Cache_get_def Cache_clear_def split: option.splits)

lemma ttl_Cache_run [simp]: "ttl (Cache_run c xs) = ttl c"
  by (induction xs arbitrary: c) simp_all

lemma ttl_Cache_set [simp]: "ttl (Cache_set c k v t) = ttl c"
  by (simp add: Cache_set_def)

lemma cache_Cache_set_same [simp]:
  "cache (Cache_set c k v t) k = Some \<lparr>val = v, timestamp = t\<rparr>"
  by (simp add: Cache_set_def)

text \<open>
  Calls that neither store under \<open>k\<close> nor clear leave the entry of \<open>k\<close> as it is or
  delete it.
\<close>

lemma Cache_step_same_or_gone:
  assumes "keeps_key k (snd x)" and "cache c k = None \<or> cache c k = Some e"
  shows "cache (Cache_step c x) k = None \<or> cache (Cache_step c x) k = Some e"
  using assms
  by (cases x; cases "snd x")
     (auto simp: Cache_set_def Cache_get_def split: option.splits)

lemma Cache_run_same_or_gone:
  assumes "\<forall>x\<in>set calls. keeps_key k (snd x)" and "cache c k = None \<or> cache c k = Some e"
  shows "cache (Cache_run c calls) k = None \<or> cache (Cache_run c calls) k = Some e"
  using assms
proof (induction calls arbitrary: c)
  case Nil
  then show ?case by simp
next
  case (Cons x calls)
  from Cons.prems have "cache (Cache_step c x) k = None \<or> cache (Cache_step c x) k = Some e"
    by (intro Cache_step_same_or_gone) simp_all
  with Cons.IH [of "Cache_step c x"] Cons.prems(1) show ?case by simp
qed

text \<open>While no call is made after the entry has expired, the entry stays.\<close>

lemma Cache_step_fresh:
  assumes "keeps_key k (snd x)" and "fst x - timestamp e \<le> ttl c" and "cache c k = Some e"
  shows "cache (Cache_step c x) k = Some e"
  using assms
  by (cases x; cases "snd x")
     (auto simp: Cache_set_def Cache_get_def split: option.splits)

lemma Cache_run_fresh:
  assumes "\<forall>x\<in>set calls. keeps_key k (snd x) \<and> fst x - timestamp e \<le> ttl c"
    and "cache c k = Some e"
  shows "cache (Cache_run c calls) k = Some e"
  using assms
proof (induction calls arbitrary: c)
  case Nil
  then show ?case by simp
next
  case (Cons x calls)
  from Cons.prems have "cache (Cache_step c x) k = Some e"
    by (intro Cache_step_fresh) simp_all
  with Cons.IH [of "Cache_step c x"] Cons.prems(1) show ?case by simp
qed

lemma Cache_get_after_set:
  assumes "\<forall>x\<in>set calls. fst x \<le> t' \<and> keeps_key k (snd x)"
  shows "fst (Cache_get (Cache_run (Cache_set c k v t) calls) k t') =
           (if t' - t \<le> ttl c then Some v else None)"
proof (cases "t' - t \<le> ttl c")
  case True
  let ?e = "\<lparr>val = v, timestamp = t\<rparr>"
  have "cache (Cache_run (Cache_set c k v t) calls) k = Some ?e"
  proof (rule Cache_run_fresh)
    show "\<forall>x\<in>set calls. keeps_key k (snd x) \<and> fst x - timestamp ?e \<le> ttl (Cache_set c k v t)"
      using assms True by auto
    show "cache (Cache_set c k v t) k = Some ?e"
      by simp
  qed
  with True show ?thesis by (simp add: Cache_get_def)
next
  case False
  let ?e = "\<lparr>val = v, timestamp = t\<rparr>"
  have "cache (Cache_run (Cache_set c k v t) calls) k = None
        \<or> cache (Cache_run (Cache_set c k v t) calls) k = Some ?e"
    using assms by (intro Cache_run_same_or_gone) auto
  with False show ?thesis by (auto simp: Cache_get_def)
qed

text \<open>
  Claim C1 (cache TTL invariant). Let \<open>set(k, v)\<close> be performed at time \<open>t\<close> and \<open>get(k)\<close>
  at time \<open>t'\<close>. Then the read returns \<open>v\<close> when \<open>t' - t \<le> ttl\<close> and \<open>null\<close> when
  \<open>t' - t > ttl\<close>. This holds for a read right after the write and also for a read after
  any other calls made in between, none later than \<open>t'\<close> on the clock, as long as none of
  them stores under \<open>k\<close> again or clears the cache: earlier reads of \<open>k\<close> and calls for
  other keys change nothing.
\<close>

theorem Cache_ttl_invariant:
  assumes "\<forall>x\<in>set calls. fst x \<le> t' \<and> keeps_key k (snd x)"
  shows "fst (Cache_get (Cache_run (Cache_set c k v t) calls) k t') =
           (if t' - t \<le> ttl c then Some v else None)"
  using assms by (rule Cache_get_after_set)

theorem Cache_ttl_invariant_witness:
  "fst (Cache_get (Cache_run (Cache_set (Cache_new (*) (Some 1)) ''abc'' [1, 2, 3 :: nat] 5000)
          [(6000, Call_get ''abc''), (7000, Call_set ''xyz'' []), (65000, Call_get ''abc'')])
        ''abc'' 65000) = Some [1, 2, 3]
   \<and> fst (Cache_get (Cache_run (Cache_set (Cache_new (*) (Some 1)) ''abc'' [1, 2, 3 :: nat] 5000)
          [(6000, Call_get ''abc''), (7000, Call_set ''xyz'' [])])
        ''abc'' 66000) = None"
  using
    Cache_ttl_invariant [of "[(6000, Call_get ''abc''), (7000, Call_set ''xyz'' []),
                              (65000, Call_get ''abc'')]"
      65000 "''abc''" "Cache_new (*) (Some 1)" "[1, 2, 3 :: nat]" 5000]
    Cache_ttl_invariant [of "[(6000, Call_get ''abc''), (7000, Call_set ''xyz'' [])]"
      66000 "''abc''" "Cache_new (*) (Some 1)" "[1, 2, 3 :: nat]" 5000]
  by (simp add: Cache_new_def)

lemma Cache_set_twice: "Cache_set (Cache_set c k v1 t1) k v2 t2 = Cache_set c k v2 t2"
  by (simp add: Cache_set_def)

text \<open>
  Claim C7 (cache overwrite). After \<open>set(k, v1)\<close> at time \<open>t1\<close> and \<open>set(k, v2)\<close> at time
  \<open>t2\<close> the cache is in the state that \<open>set(k, v2)\<close> at \<open>t2\<close> alone leaves: nothing of
  the first entry remains, its timestamp included. Every later \<open>get(k)\<close>, at a time \<open>t'\<close>
  and after any calls that neither store under \<open>k\<close> nor clear, returns \<open>v2\<close> when
  \<open>t' - t2 \<le> ttl\<close> and \<open>null\<close> otherwise: the TTL runs from the second \<open>set\<close>.
\<close>

theorem Cache_overwrite:
  assumes "\<forall>x\<in>set calls. fst x \<le> t' \<and> keeps_key k (snd x)"
  shows "Cache_set (Cache_set c k v1 t1) k v2 t2 = Cache_set c k v2 t2
       \<and> fst (Cache_get (Cache_run (Cache_set (Cache_set c k v1 t1) k v2 t2) calls) k t') =
           (if t' - t2 \<le> ttl c then Some v2 else None)"
  using Cache_get_after_set [OF assms, of c v2 t2] by (simp add: Cache_set_twice)

theorem Cache_overwrite_witness:
  "fst (Cache_get (Cache_run
          (Cache_set (Cache_set (Cache_new (*) (Some 1)) ''k'' (1::nat) 0) ''k'' 2 50000)
          [(60001, Call_get ''k'')]) ''k'' 110000) = Some 2
   \<and> fst (Cache_get (Cache_run
          (Cache_set (Cache_set (Cache_new (*) (Some 1)) ''k'' (1::nat) 0) ''k'' 2 50000)
          [(60001, Call_get ''k'')]) ''k'' 110001) = None"
  using
    Cache_overwrite [of "[(60001, Call_get ''k'')]" 110000 "''k''" "Cache_new (*) (Some 1)"
      "1::nat" 0 2 50000]
    Cache_overwrite [of "[(60001, Call_get ''k'')]" 110001 "''k''" "Cache_new (*) (Some 1)"
      "1::nat" 0 2 50000]
  by (simp add: Cache_new_def Cache_set_def)

text \<open>Reads and clears keep an empty cache empty.\<close>

lemma Cache_step_empty:
  assumes "stores_nothing (snd x)" and "cache c = Map.empty"
  shows "cache (Cache_step c x) = Map.empty"
  using assms
  by (cases x; cases "snd x") (auto simp: Cache_get_def Cache_clear_def)

lemma Cache_run_empty:
  assumes "\<forall>x\<in>set calls. stores_nothing (snd x)" and "cache c = Map.empty"
  shows "cache (Cache_run c calls) = Map.empty"
  using assms
proof (induction calls arbitrary: c)
  case Nil
  then show ?case by simp
next
  case (Cons x calls)
  from Cons.prems have "cache (Cache_step c x) = Map.empty"
    by (intro Cache_step_empty) simp_all
  with Cons.IH [of "Cache_step c x"] Cons.prems(1) show ?case by simp
qed

text \<open>
  Claim C9 (cache clear). After \<open>clear()\<close>, \<open>get(k)\<close> returns \<open>null\<close> for every key \<open>k\<close>,
  whatever the cache held before and whatever the time of the read, and it goes on doing so
  through any further calls as long as none of them is a \<open>set\<close>.
\<close>

theorem Cache_clear_all:
  assumes "\<forall>x\<in>set calls. stores_nothing (snd x)"
  shows "fst (Cache_get (Cache_run (Cache_clear c) calls) k t) = None"
proof -
  have "cache (Cache_run (Cache_clear c) calls) = Map.empty"
    using assms by (rule Cache_run_empty) (simp add: Cache_clear_def)
  then show ?thesis by (simp add: Cache_get_def)
qed

theorem Cache_clear_all_witness:
  "fst (Cache_get (Cache_set (Cache_new (*) None) ''abc'' (7::nat) 1000) ''abc'' 1001) = Some 7
   \<and> fst (Cache_get (Cache_run (Cache_clear (Cache_set (Cache_new (*) None) ''abc'' (7::nat) 1000))
            [(1001, Call_get ''abc''), (1002, Call_clear)]) ''abc'' 1003) = None"
  using Cache_clear_all [of "[(1001, Call_get ''abc''), (1002, Call_clear)]"
      "Cache_set (Cache_new (*) None) ''abc'' (7::nat) 1000" "''abc''" 1003]
  by (simp add: Cache_new_def Cache_get_def)

section \<open>Properties of the retry wrapper\<close>

text \<open>
  The defining equation of the loop calls the loop again, so it is taken out of the
  simplifier's rules; the four ways through one iteration are lemmas of their own.
\<close>

declare withRetry_loop.simps [simp del]

lemma trace_after [simp]: "trace (after evs r) = evs @ trace r"
  by (simp add: after_def)

lemma outcome_after [simp]: "outcome (after evs r) = outcome r"
  by (simp add: after_def)

lemma final_after [simp]: "final (after evs r) = final r"
  by (simp add: after_def)

lemma after_run:
  "after evs \<lparr>outcome = out, final = s, trace = tr\<rparr> = \<lparr>outcome = out, final = s, trace = evs @ tr\<rparr>"
  by (simp add: after_def)

lemma result_of_call_0 [simp]: "result_of_call fn s 0 = fst (fn s)"
  by (simp add: result_of_call_def)

lemma result_of_call_Suc [simp]:
  "result_of_call fn s (Suc n) = result_of_call fn (snd (fn s)) n"
  by (simp add: result_of_call_def)

lemma withRetry_loop_done:
  assumes "\<not> real attempt < maxRetries_of options"
  shows "withRetry_loop mul fn options attempt delay lastError s =
           \<lparr>outcome = Thrown lastError, final = s, trace = []\<rparr>"
  using assms by (simp add: withRetry_loop.simps)

lemma withRetry_loop_success:
  assumes "real attempt < maxRetries_of options" and "fst (fn s) = Inr v"
  shows "withRetry_loop mul fn options attempt delay lastError s =
           \<lparr>outcome = Returned v, final = snd (fn s), trace = [Invoke (Inr v)]\<rparr>"
  using assms by (cases "fn s") (simp add: withRetry_loop.simps)

lemma withRetry_loop_last_failure:
  assumes "real attempt < maxRetries_of options" and "fst (fn s) = Inl e"
    and "real attempt = maxRetries_of options - 1"
  shows "withRetry_loop mul fn options attempt delay lastError s =
           \<lparr>outcome = Thrown (Some e), final = snd (fn s), trace = [Invoke (Inl e)]\<rparr>"
  using assms by (cases "fn s") (simp add: withRetry_loop.simps)

lemma withRetry_loop_failure:
  assumes "real attempt < maxRetries_of options" and "fst (fn s) = Inl e"
    and "real attempt \<noteq> maxRetries_of options - 1"
  shows "withRetry_loop mul fn options attempt delay lastError s =
           after [Invoke (Inl e), Wait delay]
             (withRetry_loop mul fn options (attempt + 1)
                (min (mul delay (backoffFactor_of options)) (maxDelay_of options)) (Some e)
                (snd (fn s)))"
  using assms by (cases "fn s") (simp add: withRetry_loop.simps)

lemma withRetry_loop_late_success:
  assumes "real (attempt + k) < maxRetries_of options"
    and "\<forall>n<k. isl (result_of_call fn s n)"
    and "result_of_call fn s k = Inr v"
  shows "withRetry_loop mul fn options attempt delay lastError s =
           \<lparr>outcome = Returned v, final = env_before fn s (Suc k),
            trace = failed_attempts mul fn options delay s k @ [Invoke (Inr v)]\<rparr>"
  using assms
proof (induction k arbitrary: attempt delay lastError s)
  case 0
  then show ?case by (simp add: withRetry_loop_success)
next
  case (Suc k)
  from Suc.prems(2) have "isl (result_of_call fn s 0)" by blast
  then obtain e where e: "fst (fn s) = Inl e" by (auto simp: isl_def)
  from Suc.prems(1) have lt: "real attempt < maxRetries_of options"
    and ne: "real attempt \<noteq> maxRetries_of options - 1" by simp_all
  have "withRetry_loop mul fn options (attempt + 1)
          (min (mul delay (backoffFactor_of options)) (maxDelay_of options)) (Some e) (snd (fn s)) =
        \<lparr>outcome = Returned v, final = env_before fn (snd (fn s)) (Suc k),
         trace = failed_attempts mul fn options
                   (min (mul delay (backoffFactor_of options)) (maxDelay_of options)) (snd (fn s)) k
                 @ [Invoke (Inr v)]\<rparr>"
  proof (rule Suc.IH)
    show "real (attempt + 1 + k) < maxRetries_of options" using Suc.prems(1) by simp
    show "\<forall>n<k. isl (result_of_call fn (snd (fn s)) n)" using Suc.prems(2) by auto
    show "result_of_call fn (snd (fn s)) k = Inr v" using Suc.prems(3) by simp
  qed
  moreover have "withRetry_loop mul fn options attempt delay lastError s =
      after [Invoke (Inl e), Wait delay]
        (withRetry_loop mul fn options (attempt + 1)
           (min (mul delay (backoffFactor_of options)) (maxDelay_of options)) (Some e) (snd (fn s)))"
    using lt e ne by (rule withRetry_loop_failure)
  ultimately show ?case
    by (simp add: after_run e)
qed

lemma withRetry_loop_exhausted:
  assumes "real (attempt + k) = maxRetries_of options - 1"
    and "\<forall>n\<le>k. isl (result_of_call fn s n)"
  shows "withRetry_loop mul fn options attempt delay lastError s =
           \<lparr>outcome = Thrown (Some (projl (result_of_call fn s k))),
            final = env_before fn s (Suc k),
            trace = failed_attempts mul fn options delay s k @ [Invoke (result_of_call fn s k)]\<rparr>"
  using assms
proof (induction k arbitrary: attempt delay lastError s)
  case 0
  from 0(2) obtain e where e: "fst (fn s) = Inl e" by (auto simp: isl_def)
  from 0(1) have "real attempt < maxRetries_of options" by simp
  with 0(1) e show ?case by (simp add: withRetry_loop_last_failure)
next
  case (Suc k)
  from Suc.prems(2) have "isl (result_of_call fn s 0)" by blast
  then obtain e where e: "fst (fn s) = Inl e" by (auto simp: isl_def)
  from Suc.prems(1) have lt: "real attempt < maxRetries_of options"
    and ne: "real attempt \<noteq> maxRetries_of options - 1" by simp_all
  have "withRetry_loop mul fn options (attempt + 1)
          (min (mul delay (backoffFactor_of options)) (maxDelay_of options)) (Some e) (snd (fn s)) =
        \<lparr>outcome = Thrown (Some (projl (result_of_call fn (snd (fn s)) k))),
         final = env_before fn (snd (fn s)) (Suc k),
         trace = failed_attempts mul fn options
                   (min (mul delay (backoffFactor_of options)) (maxDelay_of options)) (snd (fn s)) k
                 @ [Invoke (result_of_call fn (snd (fn s)) k)]\<rparr>"
  proof (rule Suc.IH)
    show "real (attempt + 1 + k) = maxRetries_of options - 1" using Suc.prems(1) by simp
    show "\<forall>n\<le>k. isl (result_of_call fn (snd (fn s)) n)" using Suc.prems(2) by auto
  qed
  moreover have "withRetry_loop mul fn options attempt delay lastError s =
      after [Invoke (Inl e), Wait delay]
        (withRetry_loop mul fn options (attempt + 1)
           (min (mul delay (backoffFactor_of options)) (maxDelay_of options)) (Some e) (snd (fn s)))"
    using lt e ne by (rule withRetry_loop_failure)
  ultimately show ?case
    by (simp add: after_run e)
qed

lemma delays_append [simp]: "delays (xs @ ys) = delays xs @ delays ys"
  by (induction xs rule: delays.induct) simp_all

lemma invocations_Nil [simp]: "invocations [] = 0"
  by (simp add: invocations_def)

lemma invocations_Cons_Invoke [simp]: "invocations (Invoke r # evs) = Suc (invocations evs)"
  by (simp add: invocations_def)

lemma invocations_Cons_Wait [simp]: "invocations (Wait d # evs) = invocations evs"
  by (simp add: invocations_def)

lemma invocations_append [simp]: "invocations (xs @ ys) = invocations xs + invocations ys"
  by (simp add: invocations_def)

lemma invocations_failed_attempts [simp]:
  "invocations (failed_attempts mul fn options delay s k) = k"
  by (induction k arbitrary: delay s) simp_all

lemma backoff_Suc_right:
  "backoff mul options delay (Suc n) =
     min (mul (backoff mul options delay n) (backoffFactor_of options)) (maxDelay_of options)"
  by (induction n arbitrary: delay) simp_all

lemma delays_failed_attempts:
  "delays (failed_attempts mul fn options delay s k) = map (backoff mul options delay) [0..<k]"
proof (induction k arbitrary: delay s)
  case 0
  show ?case by simp
next
  case (Suc k)
  have "map (backoff mul options delay) [0..<Suc k] =
          backoff mul options delay 0 # map (backoff mul options delay \<circ> Suc) [0..<k]"
    by (simp only: map_Suc_upt [symmetric] upt_conv_Cons [of 0 "Suc k"] list.map map_map
          zero_less_Suc)
  then show ?case using Suc.IH by simp
qed

lemma min_clamp_step:
  fixes x b M :: real
  assumes "1 \<le> b" and "0 \<le> M"
  shows "min (min x M * b) M = min (x * b) M"
proof (cases "x \<le> M")
  case True
  then show ?thesis by simp
next
  case False
  then have x: "M < x" "0 < x" using assms(2) by simp_all
  have "M \<le> M * b" using mult_left_mono [of 1 b M] assms by simp
  then have "min (M * b) M = M" by (rule min_absorb2)
  moreover have "x \<le> x * b" using mult_left_mono [of 1 b x] assms x by simp
  then have "M \<le> x * b" using x by linarith
  then have "min (x * b) M = M" by (rule min_absorb2)
  moreover have "min x M = M" using x by simp
  ultimately show ?thesis by simp
qed

text \<open>
  When the products the loop forms are exact, the factor is at least \<open>1\<close> and the cap
  is not negative, the delays are those of the specification.
\<close>

lemma backoff_spec_delay:
  assumes exact: "\<forall>j<n. mul (backoff mul options (initialDelay_of options) j)
                          (backoffFactor_of options) =
                        backoff mul options (initialDelay_of options) j * backoffFactor_of options"
    and "1 \<le> backoffFactor_of options" and "0 \<le> maxDelay_of options"
  shows "backoff mul options (initialDelay_of options) n = spec_delay options n"
  using exact
proof (induction n)
  case 0
  show ?case by (simp add: spec_delay_def)
next
  case (Suc n)
  let ?i = "initialDelay_of options" and ?b = "backoffFactor_of options"
    and ?M = "maxDelay_of options"
  from Suc.prems have IH: "backoff mul options ?i n = spec_delay options n"
    by (intro Suc.IH) simp
  from Suc.prems have ex: "mul (backoff mul options ?i n) ?b = backoff mul options ?i n * ?b"
    by simp
  have step: "backoff mul options ?i (Suc n) = min (backoff mul options ?i n * ?b) ?M"
    by (simp only: backoff_Suc_right ex)
  show ?case
  proof (cases n)
    case 0
    with step show ?thesis by (simp add: spec_delay_def)
  next
    case (Suc m)
    have "backoff mul options ?i (Suc n) = min (min (?i * ?b ^ n) ?M * ?b) ?M"
      using step IH Suc by (simp add: spec_delay_def)
    also have "\<dots> = min (?i * ?b ^ n * ?b) ?M"
      using assms(2,3) by (rule min_clamp_step)
    also have "\<dots> = spec_delay options (Suc n)"
      by (simp add: spec_delay_def ac_simps)
    finally show ?thesis .
  qed
qed

text \<open>
  Without exact products the delays leave the sequence of the specification, also for a
  whole number of attempts: with \<^verbatim>\<open>{ initialDelay: 3, backoffFactor: 0.1 }\<close> the second
  delay waited is the double \<^verbatim>\<open>0.30000000000000004\<close>, which is more than \<open>3\<close> times the
  double \<^verbatim>\<open>0.1\<close>.
\<close>

lemma rounded_product_example:
  "delays (trace (withRetry mul_doubles_example always_fails by_one_tenth 0)) =
     [3, 1351079888211149 / 2 ^ 52]
   \<and> map (spec_delay by_one_tenth) [0..<2] = [3, 3 * one_tenth]
   \<and> 3 * one_tenth < 1351079888211149 / 2 ^ 52"
  by (simp add: withRetry_def withRetry_loop.simps after_def maxRetries_of_def
        initialDelay_of_def maxDelay_of_def backoffFactor_of_def always_fails_def
        by_one_tenth_def mul_doubles_example_def one_tenth_def spec_delay_def upt_rec)

text \<open>
  Whatever the action does, the first delay waited from a given point of the loop is the
  current value of \<^verbatim>\<open>delay\<close>, and every later one is a result of \<^verbatim>\<open>Math.min\<close> with
  \<^verbatim>\<open>maxDelay\<close>.
\<close>

lemma delays_withRetry_loop:
  "delays (trace (withRetry_loop mul fn options attempt delay lastError s)) = []
   \<or> (\<exists>ds. delays (trace (withRetry_loop mul fn options attempt delay lastError s)) = delay # ds
            \<and> (\<forall>d\<in>set ds. d \<le> maxDelay_of options))"
proof (induction mul fn options attempt delay lastError s rule: withRetry_loop.induct)
  case (1 mul fn options attempt delay lastError s)
  let ?next = "min (mul delay (backoffFactor_of options)) (maxDelay_of options)"
  show ?case
  proof (cases "real attempt < maxRetries_of options")
    case False
    then show ?thesis by (simp add: withRetry_loop_done)
  next
    case lt: True
    show ?thesis
    proof (cases "fst (fn s)")
      case (Inr v)
      with lt show ?thesis by (simp add: withRetry_loop_success)
    next
      case (Inl e)
      show ?thesis
      proof (cases "real attempt = maxRetries_of options - 1")
        case True
        with lt Inl show ?thesis by (simp add: withRetry_loop_last_failure)
      next
        case ne: False
        let ?rest = "withRetry_loop mul fn options (attempt + 1) ?next (Some e) (snd (fn s))"
        have step: "withRetry_loop mul fn options attempt delay lastError s =
                      after [Invoke (Inl e), Wait delay] ?rest"
          using lt Inl ne by (rule withRetry_loop_failure)
        have "delays (trace ?rest) = []
              \<or> (\<exists>ds. delays (trace ?rest) = ?next # ds \<and> (\<forall>d\<in>set ds. d \<le> maxDelay_of options))"
          using lt Inl ne
          by (intro "1.IH" [of "fst (fn s)" "snd (fn s)" e]) (simp_all add: prod_eq_iff)
        then have "\<forall>d\<in>set (delays (trace ?rest)). d \<le> maxDelay_of options"
          by auto
        then show ?thesis by (simp add: step)
      qed
    qed
  qed
qed

text \<open>The equations that evaluate a run of the wrapper on given options.\<close>

lemmas retry_eval = withRetry_def withRetry_loop.simps after_def
  maxRetries_of_def initialDelay_of_def maxDelay_of_def backoffFactor_of_def

text \<open>
  Claim C2 (retry exhaustion), as the specification states it: for every configuration an
  action that always fails is invoked exactly \<open>maxAttempts\<close> times, the delays are
  \<open>initialDelay, min(initialDelay*backoffFactor, maxDelay), \<dots>\<close>, no delay follows the
  final attempt and the error thrown is that of the last attempt. Three configurations
  show that this does not hold for every configuration. With \<open>maxRetries = 0\<close> the action
  is not called and \<^verbatim>\<open>null\<close> is thrown. With \<open>backoffFactor = 1/2\<close> and
  \<open>initialDelay = 1000 > maxDelay = 100\<close> the third delay is \<open>50\<close>, as the code
  multiplies the clamped delay, where the stated sequence has \<open>min (1000 / 4) 100 = 100\<close>.
  With \<open>maxRetries = 5/2\<close> the action is called three times and the third call is followed
  by a delay, as \<^verbatim>\<open>attempt === maxRetries - 1\<close> never holds. Every product formed in
  these runs is exact in doubles.
\<close>

theorem withRetry_exhaustion_counterexample:
  "withRetry (*) always_fails zero_attempts 0 = \<lparr>outcome = Thrown None, final = 0, trace = []\<rparr>
   \<and> delays (trace (withRetry (*) always_fails halving 0)) = [1000, 100, 50]
   \<and> map (spec_delay halving) [0..<3] = [1000, 100, 100]
   \<and> trace (withRetry (*) always_fails fractional_attempts 0) =
        [Invoke (Inl 0), Wait 1000, Invoke (Inl 1), Wait 2000, Invoke (Inl 2), Wait 4000]"
  by (simp add: retry_eval always_fails_def zero_attempts_def halving_def
        fractional_attempts_def spec_delay_def upt_rec)

text \<open>
  Claim C2, amended. Let \<open>maxRetries\<close> be a whole number \<open>m \<ge> 1\<close> and let the first \<open>m\<close>
  calls of the action fail. Then the action is invoked exactly \<open>m\<close> times; the trace is
  \<open>m - 1\<close> times a call followed by a wait, then the last call and nothing after it; and
  the error thrown is the error of call number \<open>m\<close>. The delays are \<open>initialDelay\<close> and
  then each time \<open>min (previous * backoffFactor) maxDelay\<close>, with the product as the
  runtime forms it. They are the sequence of the specification, \<open>initialDelay\<close> and then
  \<open>min (initialDelay * backoffFactor ^ n) maxDelay\<close>, whenever those products are exact,
  \<open>backoffFactor \<ge> 1\<close> and \<open>maxDelay \<ge> 0\<close>.
\<close>

theorem withRetry_exhaustion:
  assumes "maxRetries_of options = real m" and "1 \<le> m"
    and "\<forall>n<m. isl (result_of_call fn s n)"
  shows "invocations (trace (withRetry mul fn options s)) = m
       \<and> final (withRetry mul fn options s) = env_before fn s m
       \<and> trace (withRetry mul fn options s) =
           failed_attempts mul fn options (initialDelay_of options) s (m - 1)
           @ [Invoke (result_of_call fn s (m - 1))]
       \<and> delays (trace (withRetry mul fn options s)) =
           map (backoff mul options (initialDelay_of options)) [0..<m - 1]
       \<and> ((\<forall>j<m - 1. mul (backoff mul options (initialDelay_of options) j)
                        (backoffFactor_of options) =
                      backoff mul options (initialDelay_of options) j * backoffFactor_of options)
            \<and> 1 \<le> backoffFactor_of options \<and> 0 \<le> maxDelay_of options \<longrightarrow>
            delays (trace (withRetry mul fn options s)) = map (spec_delay options) [0..<m - 1])
       \<and> outcome (withRetry mul fn options s) =
           Thrown (Some (projl (result_of_call fn s (m - 1))))"
proof -
  from assms(2) obtain k where m: "m = Suc k" by (cases m) simp_all
  have run: "withRetry mul fn options s =
      \<lparr>outcome = Thrown (Some (projl (result_of_call fn s k))), final = env_before fn s (Suc k),
       trace = failed_attempts mul fn options (initialDelay_of options) s k
               @ [Invoke (result_of_call fn s k)]\<rparr>"
    unfolding withRetry_def
  proof (rule withRetry_loop_exhausted)
    show "real (0 + k) = maxRetries_of options - 1" using assms(1) m by simp
    show "\<forall>n\<le>k. isl (result_of_call fn s n)" using assms(3) m by simp
  qed
  have spec: "map (backoff mul options (initialDelay_of options)) [0..<k] =
              map (spec_delay options) [0..<k]"
    if exact: "\<forall>j<k. mul (backoff mul options (initialDelay_of options) j)
                         (backoffFactor_of options) =
                       backoff mul options (initialDelay_of options) j * backoffFactor_of options"
      and b: "1 \<le> backoffFactor_of options" and M: "0 \<le> maxDelay_of options"
  proof (rule map_cong [OF refl])
    fix n assume "n \<in> set [0..<k]"
    then have "n < k" by simp
    with exact have "\<forall>j<n. mul (backoff mul options (initialDelay_of options) j)
                         (backoffFactor_of options) =
                       backoff mul options (initialDelay_of options) j * backoffFactor_of options"
      by simp
    then show "backoff mul options (initialDelay_of options) n = spec_delay options n"
      using b M by (rule backoff_spec_delay)
  qed
  have waited: "delays (trace (withRetry mul fn options s)) =
                map (backoff mul options (initialDelay_of options)) [0..<k]"
    by (simp add: run delays_failed_attempts)
  show ?thesis
    unfolding m diff_Suc_1
  proof (intro conjI impI)
    show "invocations (trace (withRetry mul fn options s)) = Suc k"
      by (simp add: run)
    show "final (withRetry mul fn options s) = env_before fn s (Suc k)"
      by (simp add: run)
    show "trace (withRetry mul fn options s) =
            failed_attempts mul fn options (initialDelay_of options) s k
            @ [Invoke (result_of_call fn s k)]"
      by (simp add: run)
    show "delays (trace (withRetry mul fn options s)) =
            map (backoff mul options (initialDelay_of options)) [0..<k]"
      by (rule waited)
    show "delays (trace (withRetry mul fn options s)) = map (spec_delay options) [0..<k]"
      if "(\<forall>j<k. mul (backoff mul options (initialDelay_of options) j)
                      (backoffFactor_of options) =
                    backoff mul options (initialDelay_of options) j * backoffFactor_of options)
          \<and> 1 \<le> backoffFactor_of options \<and> 0 \<le> maxDelay_of options"
    proof -
      from that have "map (backoff mul options (initialDelay_of options)) [0..<k] =
                      map (spec_delay options) [0..<k]"
        by (intro spec) blast+
      with waited show ?thesis by (rule trans)
    qed
    show "outcome (withRetry mul fn options s) =
            Thrown (Some (projl (result_of_call fn s k)))"
      by (simp add: run)
  qed
qed

theorem withRetry_exhaustion_witness:
  "invocations (trace (withRetry (*) always_fails route_options 0)) = 3
   \<and> delays (trace (withRetry (*) always_fails route_options 0)) = [1000, 2000]
   \<and> outcome (withRetry (*) always_fails route_options 0) = Thrown (Some 2)"
proof -
  have "maxRetries_of route_options = real 3" and "1 \<le> (3::nat)"
    and "\<forall>n<3. isl (result_of_call always_fails (0::nat) n)"
    by (simp_all add: retry_eval always_fails_def route_options_def numeral_3_eq_3
          less_Suc_eq)
  from withRetry_exhaustion [OF this, of "(*)"]
  have "invocations (trace (withRetry (*) always_fails route_options 0)) = 3
      \<and> ((\<forall>j<3 - 1. backoff (*) route_options (initialDelay_of route_options) j
                         * backoffFactor_of route_options =
                       backoff (*) route_options (initialDelay_of route_options) j
                         * backoffFactor_of route_options)
           \<and> 1 \<le> backoffFactor_of route_options \<and> 0 \<le> maxDelay_of route_options \<longrightarrow>
           delays (trace (withRetry (*) always_fails route_options 0)) =
             map (spec_delay route_options) [0..<3 - 1])
      \<and> outcome (withRetry (*) always_fails route_options 0) =
          Thrown (Some (projl (result_of_call always_fails 0 (3 - 1))))"
    by blast
  moreover have "\<forall>j<3 - 1. backoff (*) route_options (initialDelay_of route_options) j
                         * backoffFactor_of route_options =
                       backoff (*) route_options (initialDelay_of route_options) j
                         * backoffFactor_of route_options"
    by blast
  moreover have "1 \<le> backoffFactor_of route_options \<and> 0 \<le> maxDelay_of route_options"
    and "map (spec_delay route_options) [0..<3 - 1] = [1000, 2000]"
    and "projl (result_of_call always_fails 0 (3 - 1)) = 2"
    by (simp_all add: retry_eval always_fails_def route_options_def spec_delay_def upt_rec
          numeral_2_eq_2)
  ultimately show ?thesis by (elim conjE impE) simp_all
qed

text \<open>
  Claim C3 (delay bound), as the specification states it: the first delay is
  \<open>initialDelay\<close> and no delay ever exceeds \<open>maxDelay\<close>. With \<open>initialDelay = 20000\<close> and
  the default \<open>maxDelay = 10000\<close> the first delay waited is \<open>20000\<close>: the initial delay is
  not clamped.
\<close>

theorem withRetry_delay_bound_counterexample:
  "delays (trace (withRetry (*) always_fails long_first_delay 0)) = [20000, 10000]
   \<and> maxDelay_of long_first_delay = 10000
   \<and> maxDelay_of long_first_delay
       < hd (delays (trace (withRetry (*) always_fails long_first_delay 0)))"
  by (simp add: retry_eval always_fails_def long_first_delay_def)

text \<open>
  Claim C3, amended. In every run of \<open>withRetry\<close>, whatever the action does: the first
  delay waited, if there is one, is exactly \<open>initialDelay\<close>; every delay after the first
  is at most \<open>maxDelay\<close>; so no delay exceeds \<open>maxDelay\<close> when
  \<open>initialDelay \<le> maxDelay\<close>.
\<close>

theorem withRetry_delay_bound:
  "(delays (trace (withRetry mul fn options s)) \<noteq> [] \<longrightarrow>
      hd (delays (trace (withRetry mul fn options s))) = initialDelay_of options)
   \<and> (\<forall>d\<in>set (tl (delays (trace (withRetry mul fn options s)))). d \<le> maxDelay_of options)
   \<and> (initialDelay_of options \<le> maxDelay_of options \<longrightarrow>
        (\<forall>d\<in>set (delays (trace (withRetry mul fn options s))). d \<le> maxDelay_of options))"
  using delays_withRetry_loop [of mul fn options 0 "initialDelay_of options" None s]
  by (auto simp: withRetry_def)

theorem withRetry_delay_bound_witness:
  "delays (trace (withRetry (*) always_fails halving 0)) = [1000, 100, 50]
   \<and> initialDelay_of halving = 1000 \<and> maxDelay_of halving = 100
   \<and> delays (trace (withRetry (*) always_fails route_options 0)) = [1000, 2000]
   \<and> initialDelay_of route_options \<le> maxDelay_of route_options"
  using withRetry_delay_bound [of "(*)" always_fails halving 0]
    withRetry_delay_bound [of "(*)" always_fails route_options 0]
  by (simp add: retry_eval always_fails_def halving_def route_options_def)

text \<open>
  Claim C6 (retry success path and late success). Let \<open>1 \<le> k \<le> maxRetries\<close>, let the
  calls \<open>1, \<dots>, k - 1\<close> of the action fail and let call \<open>k\<close> resolve to \<open>v\<close>. Then
  \<open>withRetry\<close> returns \<open>v\<close>, exactly \<open>k - 1\<close> delays are waited, and the action is invoked
  exactly \<open>k\<close> times. For \<open>k = 1\<close> the trace is the single call: one invocation, no delay.
\<close>

theorem withRetry_late_success:
  assumes "1 \<le> k" and "real k \<le> maxRetries_of options"
    and "\<forall>n<k - 1. isl (result_of_call fn s n)"
    and "result_of_call fn s (k - 1) = Inr v"
  shows "outcome (withRetry mul fn options s) = Returned v
       \<and> length (delays (trace (withRetry mul fn options s))) = k - 1
       \<and> delays (trace (withRetry mul fn options s)) =
           map (backoff mul options (initialDelay_of options)) [0..<k - 1]
       \<and> invocations (trace (withRetry mul fn options s)) = k
       \<and> final (withRetry mul fn options s) = env_before fn s k
       \<and> (k = 1 \<longrightarrow> trace (withRetry mul fn options s) = [Invoke (Inr v)])"
proof -
  from assms(1) obtain j where k: "k = Suc j" by (cases k) simp_all
  have run: "withRetry mul fn options s =
      \<lparr>outcome = Returned v, final = env_before fn s (Suc j),
       trace = failed_attempts mul fn options (initialDelay_of options) s j @ [Invoke (Inr v)]\<rparr>"
    unfolding withRetry_def
  proof (rule withRetry_loop_late_success)
    show "real (0 + j) < maxRetries_of options" using assms(2) k by simp
    show "\<forall>n<j. isl (result_of_call fn s n)" using assms(3) k by simp
    show "result_of_call fn s j = Inr v" using assms(4) k by simp
  qed
  show ?thesis
    by (simp add: run k delays_failed_attempts)
qed

theorem withRetry_late_success_witness:
  "outcome (withRetry (*) (fails_until 2) no_options 0) = Returned ''done''
   \<and> length (delays (trace (withRetry (*) (fails_until 2) no_options 0))) = 2
   \<and> invocations (trace (withRetry (*) (fails_until 2) no_options 0)) = 3
   \<and> trace (withRetry (*) (fails_until 0) no_options 0) = [Invoke (Inr ''done'')]"
proof -
  have "1 \<le> (3::nat)" and "real 3 \<le> maxRetries_of no_options"
    and "\<forall>n<3 - 1. isl (result_of_call (fails_until 2) (0::nat) n)"
    and "result_of_call (fails_until 2) 0 (3 - 1) = Inr ''done''"
    by (simp_all add: retry_eval fails_until_def no_options_def numeral_2_eq_2 less_Suc_eq)
  from withRetry_late_success [OF this, of "(*)"]
  have late: "outcome (withRetry (*) (fails_until 2) no_options 0) = Returned ''done''
      \<and> length (delays (trace (withRetry (*) (fails_until 2) no_options 0))) = 3 - 1
      \<and> invocations (trace (withRetry (*) (fails_until 2) no_options 0)) = 3"
    by blast
  have "1 \<le> (1::nat)" and "real 1 \<le> maxRetries_of no_options"
    and "\<forall>n<1 - 1. isl (result_of_call (fails_until 0) (0::nat) n)"
    and "result_of_call (fails_until 0) 0 (1 - 1) = Inr ''done''"
    by (simp_all add: retry_eval fails_until_def no_options_def)
  from withRetry_late_success [OF this, of "(*)"]
  have "trace (withRetry (*) (fails_until 0) no_options 0) = [Invoke (Inr ''done'')]"
    by blast
  with late show ?thesis by simp
qed

text \<open>
  Claim C10 (no attempts). With \<open>maxRetries \<le> 0\<close> the loop body is never entered: the
  action is not invoked, nothing is waited for, and \<^verbatim>\<open>lastError\<close> is thrown with its
  initial value \<^verbatim>\<open>null\<close>, which is no error of the action.
\<close>

theorem withRetry_no_attempts:
  assumes "maxRetries_of options \<le> 0"
  shows "withRetry mul fn options s = \<lparr>outcome = Thrown None, final = s, trace = []\<rparr>"
  unfolding withRetry_def using assms by (intro withRetry_loop_done) simp

theorem withRetry_no_attempts_witness:
  "maxRetries_of zero_attempts \<le> 0
   \<and> withRetry (*) always_fails zero_attempts 0 = \<lparr>outcome = Thrown None, final = 0, trace = []\<rparr>"
  using withRetry_no_attempts [of zero_attempts "(*)" always_fails 0]
  by (simp add: retry_eval zero_attempts_def)

section \<open>Properties of the rate limiter\<close>

lemma requests_of_upd_same [simp]: "requests_of (requestLog(ip \<mapsto> rs)) ip = rs"
  by (simp add: requests_of_def)

lemma requests_of_upd_other [simp]:
  "ip' \<noteq> ip \<Longrightarrow> requests_of (requestLog(ip := entry)) ip' = requests_of requestLog ip'"
  by (simp add: requests_of_def)

lemma requests_of_None [simp]: "requestLog ip = None \<Longrightarrow> requests_of requestLog ip = []"
  by (simp add: requests_of_def)

lemma fst_isRateLimited:
  "fst (isRateLimited requestLog ip now) =
     (10 \<le> length (filter (\<lambda>time. now - 60000 < time) (requests_of requestLog ip)))"
  by (simp add: isRateLimited_def RATE_LIMIT_WINDOW_def MAX_REQUESTS_PER_WINDOW_def Let_def)

lemma snd_isRateLimited:
  "snd (isRateLimited requestLog ip now) =
     requestLog(ip \<mapsto> filter (\<lambda>time. now - 60000 < time) (requests_of requestLog ip))"
  by (simp add: isRateLimited_def RATE_LIMIT_WINDOW_def Let_def)

lemma snd_POST_rate_limiting:
  "snd (POST_rate_limiting requestLog header now now') =
     (if fst (isRateLimited requestLog (client_ip header) now)
      then snd (isRateLimited requestLog (client_ip header) now)
      else (snd (isRateLimited requestLog (client_ip header) now))
             (client_ip header \<mapsto>
                requests_of (snd (isRateLimited requestLog (client_ip header) now))
                  (client_ip header) @ [now']))"
  by (simp add: POST_rate_limiting_def case_prod_beta Let_def)

text \<open>
  Claim C4 (rate limiter window). For every identity, every log and every time \<open>now\<close>,
  \<open>isRateLimited\<close> replaces the identity's timestamps by exactly those strictly newer than
  \<open>now - 60000\<close>, in their order, and returns true if and only if at least \<open>10\<close> of them
  remain. An identity without an entry in the log is not limited.
\<close>

theorem isRateLimited_window:
  "snd (isRateLimited requestLog ip now) ip =
     Some (filter (\<lambda>time. now - 60000 < time) (requests_of requestLog ip))
   \<and> fst (isRateLimited requestLog ip now) =
       (10 \<le> length (filter (\<lambda>time. now - 60000 < time) (requests_of requestLog ip)))
   \<and> (requestLog ip = None \<longrightarrow> \<not> fst (isRateLimited requestLog ip now))"
  by (simp add: fst_isRateLimited snd_isRateLimited)

theorem isRateLimited_window_witness:
  "ten_requests ''Y'' = None \<and> \<not> fst (isRateLimited ten_requests ''Y'' 60999)
   \<and> fst (isRateLimited ten_requests ''X'' 60999)
   \<and> \<not> fst (isRateLimited ten_requests ''X'' 61000)
   \<and> snd (isRateLimited ten_requests ''X'' 61000) ''X'' =
        Some [2000, 3000, 4000, 5000, 6000, 7000, 8000, 9000, 10000]"
  using isRateLimited_window [of ten_requests "''Y''" 60999]
    isRateLimited_window [of ten_requests "''X''" 60999]
    isRateLimited_window [of ten_requests "''X''" 61000]
  by (simp add: ten_requests_def requests_of_def)

text \<open>
  Claim C5 (the check only prunes). The log after \<open>isRateLimited\<close> is the log before
  with the identity's entry replaced by its pruned list and nothing else changed, whatever
  the verdict. The pruned list is no longer than the list before and holds no timestamp
  that was not there: the current request is not recorded. Recording is done by the
  caller: \<^verbatim>\<open>POST\<close> leaves the pruned log as it is for a limited request and appends its
  own reading of the clock for any other.
\<close>

theorem isRateLimited_only_prunes:
  "snd (isRateLimited requestLog ip now) =
     requestLog(ip \<mapsto> filter (\<lambda>time. now - RATE_LIMIT_WINDOW < time) (requests_of requestLog ip))
   \<and> length (requests_of (snd (isRateLimited requestLog ip now)) ip)
       \<le> length (requests_of requestLog ip)
   \<and> set (requests_of (snd (isRateLimited requestLog ip now)) ip)
       \<subseteq> set (requests_of requestLog ip)
   \<and> snd (POST_rate_limiting requestLog header now now') =
       (if fst (isRateLimited requestLog (client_ip header) now)
        then snd (isRateLimited requestLog (client_ip header) now)
        else (snd (isRateLimited requestLog (client_ip header) now))
               (client_ip header \<mapsto>
                  requests_of (snd (isRateLimited requestLog (client_ip header) now))
                    (client_ip header) @ [now']))"
  by (simp add: snd_isRateLimited RATE_LIMIT_WINDOW_def snd_POST_rate_limiting)

theorem isRateLimited_only_prunes_witness:
  "fst (isRateLimited ten_requests ''X'' 60999)
   \<and> snd (isRateLimited ten_requests ''X'' 60999) = ten_requests
   \<and> snd (POST_rate_limiting ten_requests (Some ''X'') 60999 61000) = ten_requests
   \<and> snd (POST_rate_limiting ten_requests (Some ''X'') 61000 61001) =
        [''X'' \<mapsto> [2000, 3000, 4000, 5000, 6000, 7000, 8000, 9000, 10000, 61001]]"
  using isRateLimited_only_prunes [of ten_requests "''X''" 60999 "Some ''X''" 61000]
    isRateLimited_only_prunes [of ten_requests "''X''" 61000 "Some ''X''" 61001]
  by (simp add: ten_requests_def fst_isRateLimited client_ip_def RATE_LIMIT_WINDOW_def)

text \<open>
  Claim C8 (rate limiter independence). Let \<open>Y \<noteq> X\<close>. Whatever is recorded for \<open>X\<close>,
  the verdict of \<open>isRateLimited\<close> for \<open>Y\<close> is the same; a check of \<open>X\<close> leaves the
  entry of \<open>Y\<close> as it is; and so does a request of \<open>X\<close> handled by \<^verbatim>\<open>POST\<close>, logged or
  not.
\<close>

theorem isRateLimited_independent:
  assumes "Y \<noteq> X"
  shows "fst (isRateLimited (requestLog(X := entry)) Y now) = fst (isRateLimited requestLog Y now)
       \<and> snd (isRateLimited requestLog X now) Y = requestLog Y
       \<and> (client_ip header = X \<longrightarrow>
            snd (POST_rate_limiting requestLog header now now') Y = requestLog Y)"
  using assms
  by (simp add: fst_isRateLimited snd_isRateLimited snd_POST_rate_limiting)

theorem isRateLimited_independent_witness:
  "''Y'' \<noteq> ''X''
   \<and> fst (isRateLimited (ten_requests(''X'' := None)) ''Y'' 60999)
      = fst (isRateLimited ten_requests ''Y'' 60999)
   \<and> snd (isRateLimited ten_requests ''X'' 61000) ''Y'' = None
   \<and> client_ip (Some ''X'') = ''X''
   \<and> snd (POST_rate_limiting ten_requests (Some ''X'') 61000 61001) ''Y'' = None"
  using
    isRateLimited_independent [of "''Y''" "''X''" ten_requests None 60999 "Some ''X''" 61001]
    isRateLimited_independent [of "''Y''" "''X''" ten_requests None 61000 "Some ''X''" 61001]
  by (simp add: ten_requests_def client_ip_def)

end
